theory Spec2Isabelle
  imports Complex_Main
begin

section \<open>Answer relevancy metric (ragas/metrics/answer\_relevance.py)\<close>

text \<open>
  The module scores a table of (question, answer) records: a generation model is asked for
  candidate questions for each answer, the question and the candidates are embedded, and
  the score of a record is the largest cosine similarity between the question and a
  candidate. The generation model and the embedding model are external clients; here they
  are parameters of the model (record \<open>env\<close>), every call to them is appended to a
  history, and their replies may depend on that history.
\<close>

subsection \<open>Python values and exceptions\<close>

datatype pyerror =
    KeyError string
  | IndexError
  | ValueError
  | AxisError
  | ArrowInvalid
  | ClientError string

text \<open>
  A float64 as numpy produces it here. Finite values are reals and arithmetic on them is
  exact: rounding, overflow and underflow of float64 are not modelled. The non-finite
  values are the ones a division by zero yields.
\<close>

datatype npfloat = Fin real | PInf | NInf | NaN

text \<open>A value in a table cell: text, or a float.\<close>

datatype cell = Text string | Float npfloat

text \<open>Elementwise true division of float64 arrays: a zero divisor gives NaN or an
  infinity (numpy warns, it does not raise).\<close>

definition np_div :: "real \<Rightarrow> real \<Rightarrow> npfloat" where
  "np_div x y =
     (if y = 0 then (if x = 0 then NaN else if 0 < x then PInf else NInf)
      else Fin (x / y))"

text \<open>\<open>ndarray.max()\<close>: NaN propagates; an empty array raises ValueError.\<close>

fun fle :: "npfloat \<Rightarrow> npfloat \<Rightarrow> bool" where
  "fle NaN _ = False"
| "fle _ NaN = False"
| "fle NInf _ = True"
| "fle _ PInf = True"
| "fle (Fin x) (Fin y) = (x \<le> y)"
| "fle _ _ = False"

definition fmax :: "npfloat \<Rightarrow> npfloat \<Rightarrow> npfloat" where
  "fmax a b = (if a = NaN \<or> b = NaN then NaN else if fle a b then b else a)"

fun np_max :: "npfloat list \<Rightarrow> pyerror + npfloat" where
  "np_max [] = Inl ValueError"
| "np_max (x # xs) = Inr (foldl fmax x xs)"

subsection \<open>The numpy arrays of \<open>calculate_similarity\<close>\<close>

type_synonym vec = "real list"

text \<open>A two-dimensional array with its shape \<open>(nrows, ncols)\<close>.\<close>

datatype mat = Mat (nrows: nat) (ncols: nat) (rows: "real list list")

datatype ndarray = A1 vec | A2 mat

text \<open>\<open>np.asarray\<close> of a list of lists of floats: the empty list is the
  one-dimensional array of shape \<open>(0,)\<close>; rows of different lengths are refused.\<close>

definition asarray2 :: "real list list \<Rightarrow> pyerror + ndarray" where
  "asarray2 xss =
     (case xss of
        [] \<Rightarrow> Inr (A1 [])
      | r # rs \<Rightarrow>
          if list_all (\<lambda>r'. length r' = length r) rs
          then Inr (A2 (Mat (length xss) (length r) xss))
          else Inl ValueError)"

text \<open>\<open>x.reshape(1, -1)\<close> of a one-dimensional array.\<close>

definition reshape_1_m1 :: "vec \<Rightarrow> mat" where
  "reshape_1_m1 xs = Mat 1 (length xs) [xs]"

text \<open>\<open>x.reshape(-1,)\<close> of a two-dimensional array (row-major).\<close>

definition reshape_m1 :: "mat \<Rightarrow> vec" where
  "reshape_m1 a = concat (rows a)"

definition np_T :: "mat \<Rightarrow> mat" where
  "np_T a = Mat (ncols a) (nrows a) (map (\<lambda>j. map (\<lambda>row. row ! j) (rows a)) [0..<ncols a])"

text \<open>\<open>np.linalg.norm(x, axis=1)\<close> of a two-dimensional array: the L2 norm of each row.\<close>

definition linalg_norm_axis1 :: "mat \<Rightarrow> vec" where
  "linalg_norm_axis1 a = map (\<lambda>row. sqrt (sum_list (map (\<lambda>x. x * x) row))) (rows a)"

text \<open>\<open>np.dot\<close> of two two-dimensional arrays: the matrix product.\<close>

definition np_dot :: "mat \<Rightarrow> mat \<Rightarrow> pyerror + mat" where
  "np_dot a b =
     (if ncols a = nrows b
      then Inr (Mat (nrows a) (ncols b)
             (map (\<lambda>row. map (\<lambda>j. sum_list (map2 (*) row (map (\<lambda>brow. brow ! j) (rows b))))
                               [0..<ncols b])
                  (rows a)))
      else Inl ValueError)"

text \<open>An elementwise operation on two one-dimensional arrays, with numpy's broadcasting.\<close>

definition broadcast2 :: "(real \<Rightarrow> real \<Rightarrow> 'a) \<Rightarrow> vec \<Rightarrow> vec \<Rightarrow> pyerror + 'a list" where
  "broadcast2 f xs ys =
     (if length xs = length ys then Inr (map2 f xs ys)
      else if length ys = 1 then Inr (map (\<lambda>x. f x (hd ys)) xs)
      else if length xs = 1 then Inr (map (\<lambda>y. f (hd xs) y) ys)
      else Inl ValueError)"

text \<open>
  Lines 86 to 98 after the two embedding calls: \<open>qv\<close> is the reply of
  \<open>embed_query\<close>, \<open>vs\<close> the reply of \<open>embed_documents\<close>.
  \<open>np.linalg.norm(gen_question_vec, axis=1)\<close> raises AxisError on a
  one-dimensional array.
\<close>

definition similarity_arrays :: "vec \<Rightarrow> real list list \<Rightarrow> pyerror + npfloat list" where
  "similarity_arrays qv vs =
     (let question_vec = reshape_1_m1 qv in
      case asarray2 vs of
        Inl e \<Rightarrow> Inl e
      | Inr (A1 xs) \<Rightarrow> Inl AxisError
      | Inr (A2 gen_question_vec) \<Rightarrow>
          (case broadcast2 (*) (linalg_norm_axis1 gen_question_vec)
                               (linalg_norm_axis1 question_vec) of
             Inl e \<Rightarrow> Inl e
           | Inr norm' \<Rightarrow>
               (case np_dot gen_question_vec (np_T question_vec) of
                  Inl e \<Rightarrow> Inl e
                | Inr d \<Rightarrow> broadcast2 np_div (reshape_m1 d) norm')))"

subsection \<open>The external clients\<close>

text \<open>A chat prompt is a list of messages; the module builds prompts of one human message.\<close>

datatype message = HumanMessage string

type_synonym prompt = "message list"

text \<open>The calls the module makes to its clients, in the order made.\<close>

datatype call =
    Generate "prompt list" int
  | EmbedQuery cell
  | EmbedDocuments "string list"

type_synonym history = "call list"

text \<open>
  \<open>llm_generate\<close> is \<open>generate(prompts, llm, n)\<close> of \<open>ragas.metrics.llms\<close> followed by
  the projection of line 74: for each prompt, the texts of its generations.
  \<open>embed_query\<close> and \<open>embed_documents\<close> are the two methods of the embedding client.
  Each takes the history of the calls made before it, and may fail.
  \<open>float_str\<close> is Python's \<open>str\<close> on a float, used when a float is formatted into
  the prompt.
\<close>

record env =
  llm_generate :: "history \<Rightarrow> prompt list \<Rightarrow> int \<Rightarrow> pyerror + string list list"
  embed_query :: "history \<Rightarrow> cell \<Rightarrow> pyerror + real list"
  embed_documents :: "history \<Rightarrow> string list \<Rightarrow> pyerror + real list list"
  float_str :: "npfloat \<Rightarrow> string"

subsection \<open>The metric\<close>

record metric =
  name :: string
  batch_size :: int
  strictness :: int

definition answer_relevancy :: metric where
  "answer_relevancy = \<lparr>name = ''answer_relevancy'', batch_size = 15, strictness = 3\<rparr>"

text \<open>The template \<open>QUESTION_GEN\<close>, before and after its only field \<open>{answer}\<close>.\<close>

definition QUESTION_GEN_head :: string where
  "QUESTION_GEN_head =
     ''\<newline>Generate question for the given answer.\<newline>Answer:\<newline>The PSLV-C56 mission is scheduled to be launched on Sunday, 30 July 2023 at 06:30 IST / 01:00 UTC. It will be launched from the Satish Dhawan Space Centre, Sriharikota, Andhra Pradesh, India \<newline>Question: When is the scheduled launch date and time for the PSLV-C56 mission, and where will it be launched from?\<newline>\<newline>Answer:''"

definition QUESTION_GEN_tail :: string where
  "QUESTION_GEN_tail = ''\<newline>Question:\<newline>''"

definition py_str :: "env \<Rightarrow> cell \<Rightarrow> string" where
  "py_str E c = (case c of Text s \<Rightarrow> s | Float x \<Rightarrow> float_str E x)"

definition QUESTION_GEN_format :: "env \<Rightarrow> cell \<Rightarrow> message" where
  "QUESTION_GEN_format E ans = HumanMessage (QUESTION_GEN_head @ py_str E ans @ QUESTION_GEN_tail)"

text \<open>\<open>calculate_similarity\<close> (lines 83 to 98): the question is embedded first, then the
  generated questions in one call.\<close>

definition calculate_similarity ::
  "env \<Rightarrow> cell \<Rightarrow> string list \<Rightarrow> history \<Rightarrow> history \<times> (pyerror + npfloat list)" where
  "calculate_similarity E question generated_questions h =
     (let h1 = h @ [EmbedQuery question] in
      case embed_query E h question of
        Inl e \<Rightarrow> (h1, Inl e)
      | Inr qv \<Rightarrow>
          (let h2 = h1 @ [EmbedDocuments generated_questions] in
           case embed_documents E h1 generated_questions of
             Inl e \<Rightarrow> (h2, Inl e)
           | Inr vs \<Rightarrow> (h2, similarity_arrays qv vs)))"

text \<open>The loop of lines 76 to 79 over \<open>zip(questions, results)\<close>.\<close>

fun score_pairs ::
  "env \<Rightarrow> (cell \<times> string list) list \<Rightarrow> npfloat list \<Rightarrow> history
     \<Rightarrow> history \<times> (pyerror + npfloat list)" where
  "score_pairs E [] scores h = (h, Inr scores)"
| "score_pairs E ((question, gen_questions) # rest) scores h =
     (case calculate_similarity E question gen_questions h of
        (h', Inl e) \<Rightarrow> (h', Inl e)
      | (h', Inr cosine_sim) \<Rightarrow>
          (case np_max cosine_sim of
             Inl e \<Rightarrow> (h', Inl e)
           | Inr s \<Rightarrow> score_pairs E rest (scores @ [s]) h'))"

subsection \<open>The table\<close>

text \<open>A table: its number of rows and its columns in order, each a name and the cells of
  the column.\<close>

record dataset =
  num_rows :: nat
  columns :: "(string \<times> cell list) list"

definition wf_dataset :: "dataset \<Rightarrow> bool" where
  "wf_dataset ds \<longleftrightarrow>
     distinct (map fst (columns ds)) \<and>
     list_all (\<lambda>c. length (snd c) = num_rows ds) (columns ds)"

text \<open>\<open>dataset[key]\<close>: the cells of a column; KeyError when there is no such column.\<close>

definition getitem :: "dataset \<Rightarrow> string \<Rightarrow> pyerror + cell list" where
  "getitem ds key =
     (case map_of (columns ds) key of None \<Rightarrow> Inl (KeyError key) | Some col \<Rightarrow> Inr col)"

text \<open>\<open>dataset.select(range(start, stop))\<close>: the rows of the range, in order; IndexError
  when the range leaves the table.\<close>

definition select :: "dataset \<Rightarrow> nat \<times> nat \<Rightarrow> pyerror + dataset" where
  "select ds r =
     (case r of (start, stop) \<Rightarrow>
        if stop \<le> start then Inr \<lparr>num_rows = 0, columns = map (\<lambda>c. (fst c, [])) (columns ds)\<rparr>
        else if stop \<le> num_rows ds
        then Inr \<lparr>num_rows = stop - start,
                  columns = map (\<lambda>c. (fst c, take (stop - start) (drop start (snd c)))) (columns ds)\<rparr>
        else Inl IndexError)"

text \<open>\<open>dataset.add_column(name, column)\<close>: ValueError when the table has a column of
  that name, ArrowInvalid when the column has not one value per row; the column is added
  after the others.\<close>

definition add_column :: "dataset \<Rightarrow> string \<Rightarrow> cell list \<Rightarrow> pyerror + dataset" where
  "add_column ds nm col =
     (if nm \<in> set (map fst (columns ds)) then Inl ValueError
      else if length col \<noteq> num_rows ds then Inl ArrowInvalid
      else Inr (ds\<lparr>columns := columns ds @ [(nm, col)]\<rparr>))"

subsection \<open>Scoring\<close>

text \<open>\<open>_score_batch\<close> (lines 65 to 81).\<close>

definition score_batch ::
  "env \<Rightarrow> metric \<Rightarrow> dataset \<Rightarrow> history \<Rightarrow> history \<times> (pyerror + npfloat list)" where
  "score_batch E m ds h =
     (case getitem ds ''question'' of
        Inl e \<Rightarrow> (h, Inl e)
      | Inr questions \<Rightarrow>
     (case getitem ds ''answer'' of
        Inl e \<Rightarrow> (h, Inl e)
      | Inr answers \<Rightarrow>
     (let prompts = map (\<lambda>ans. [QUESTION_GEN_format E ans]) answers;
          h1 = h @ [Generate prompts (strictness m)] in
      case llm_generate E h prompts (strictness m) of
        Inl e \<Rightarrow> (h1, Inl e)
      | Inr results \<Rightarrow> score_pairs E (zip questions results) [] h1)))"

text \<open>
  Modelled from the spec: \<open>get_batches\<close> is inherited from the metric base class, which
  is not among the sources. The spec: the dataset is partitioned into contiguous index
  ranges of size \<open>batch_size\<close>, in order; 32 rows with batch size 15 give
  [0:15], [15:30], [30:32]. A range is its start and its end (exclusive). The spec says
  nothing about a batch size below 1; the model has no range then.
\<close>

definition get_batches :: "metric \<Rightarrow> nat \<Rightarrow> (nat \<times> nat) list" where
  "get_batches m n =
     (let bs = nat (batch_size m) in
      map (\<lambda>k. (k * bs, min (k * bs + bs) n)) [0..<(n + bs - 1) div bs])"

text \<open>The loop of \<open>score\<close> (lines 59 to 61) over the batches.\<close>

fun score_batches ::
  "env \<Rightarrow> metric \<Rightarrow> dataset \<Rightarrow> (nat \<times> nat) list \<Rightarrow> npfloat list \<Rightarrow> history
     \<Rightarrow> history \<times> (pyerror + npfloat list)" where
  "score_batches E m ds [] scores h = (h, Inr scores)"
| "score_batches E m ds (batch # rest) scores h =
     (case select ds batch of
        Inl e \<Rightarrow> (h, Inl e)
      | Inr sub \<Rightarrow>
          (case score_batch E m sub h of
             (h', Inl e) \<Rightarrow> (h', Inl e)
           | (h', Inr score) \<Rightarrow> score_batches E m ds rest (scores @ score) h'))"

text \<open>\<open>score\<close> (lines 57 to 63).\<close>

definition score :: "env \<Rightarrow> metric \<Rightarrow> dataset \<Rightarrow> history \<Rightarrow> history \<times> (pyerror + dataset)" where
  "score E m ds h =
     (case score_batches E m ds (get_batches m (num_rows ds)) [] h of
        (h', Inl e) \<Rightarrow> (h', Inl e)
      | (h', Inr scores) \<Rightarrow> (h', add_column ds (name m) (map Float scores)))"

subsection \<open>The similarity as the specification words it\<close>

text \<open>The cosine similarity of two vectors: their dot product divided by the product of
  their L2 norms.\<close>

definition dot_product :: "vec \<Rightarrow> vec \<Rightarrow> real" where
  "dot_product v q = sum_list (map2 (*) v q)"

definition l2_norm :: "vec \<Rightarrow> real" where
  "l2_norm v = sqrt (sum_list (map (\<lambda>x. x\<^sup>2) v))"

definition cosine_similarity :: "vec \<Rightarrow> vec \<Rightarrow> npfloat" where
  "cosine_similarity v q = np_div (dot_product v q) (l2_norm v * l2_norm q)"

subsection \<open>Stub clients for concrete runs\<close>

text \<open>An embedding client that knows four texts, and a generation client that returns the
  same candidates for every prompt.\<close>

definition stub_embed :: "string \<Rightarrow> real list" where
  "stub_embed s =
     (if s = ''east'' then [1, 0]
      else if s = ''north'' then [0, 1]
      else if s = ''west'' then [-1, 0]
      else [0, 0])"

definition stub_env :: "string list \<Rightarrow> env" where
  "stub_env gens =
     \<lparr>llm_generate = (\<lambda>h ps n. Inr (map (\<lambda>p. gens) ps)),
      embed_query = (\<lambda>h c. case c of Text s \<Rightarrow> Inr (stub_embed s)
                                   | Float x \<Rightarrow> Inl (ClientError ''text expected'')),
      embed_documents = (\<lambda>h ts. Inr (map stub_embed ts)),
      float_str = (\<lambda>x. ''float'')\<rparr>"

definition one_row :: dataset where
  "one_row =
     \<lparr>num_rows = 1,
      columns = [(''question'', [Text ''east'']), (''answer'', [Text ''sunrise''])]\<rparr>"

definition two_rows :: dataset where
  "two_rows =
     \<lparr>num_rows = 2,
      columns = [(''id'', [Text ''r0'', Text ''r1'']),
                 (''question'', [Text ''east'', Text ''north'']),
                 (''answer'', [Text ''sunrise'', Text ''pole''])]\<rparr>"

subsection \<open>Predicates used in the statements\<close>

fun is_generate :: "call \<Rightarrow> bool" where
  "is_generate (Generate ps n) = True"
| "is_generate (EmbedQuery q) = False"
| "is_generate (EmbedDocuments ts) = False"

fun is_text :: "cell \<Rightarrow> bool" where
  "is_text (Text s) = True"
| "is_text (Float x) = False"

text \<open>The range of row indices of a batch.\<close>

definition batch_indices :: "nat \<times> nat \<Rightarrow> nat list" where
  "batch_indices r = [fst r..<snd r]"

definition batch_len :: "nat \<times> nat \<Rightarrow> nat" where
  "batch_len r = snd r - fst r"

text \<open>
  Clients that keep their contracts, with embeddings of dimension \<open>d\<close>: the generation
  client returns, for every prompt, at least one text; the embedding client returns a
  vector for a text, and one vector per text for a list of texts.
\<close>

definition clients_ok :: "env \<Rightarrow> nat \<Rightarrow> bool" where
  "clients_ok E d \<longleftrightarrow>
     (\<forall>h ps n. \<exists>res. llm_generate E h ps n = Inr res \<and> length res = length ps \<and>
                  list_all (\<lambda>r. r \<noteq> []) res) \<and>
     (\<forall>h s. \<exists>qv. embed_query E h (Text s) = Inr qv \<and> length qv = d) \<and>
     (\<forall>h ts. \<exists>vs. embed_documents E h ts = Inr vs \<and> length vs = length ts \<and>
                  list_all (\<lambda>v. length v = d) vs)"

text \<open>\<open>s\<close> is the maximum of the array \<open>xs\<close>, as numpy defines it: NaN when a NaN
  is among the values, otherwise one of the values that none of them exceeds.\<close>

definition is_max_of :: "npfloat list \<Rightarrow> npfloat \<Rightarrow> bool" where
  "is_max_of xs s \<longleftrightarrow>
     (if NaN \<in> set xs then s = NaN else s \<in> set xs \<and> list_all (\<lambda>x. fle x s) xs)"

section \<open>Properties\<close>

subsection \<open>The array computation\<close>

lemma broadcast2_singleton: "broadcast2 f xs [y] = Inr (map (\<lambda>x. f x y) xs)"
proof (cases xs)
  case Nil
  then show ?thesis by (simp add: broadcast2_def)
next
  case (Cons a as)
  then show ?thesis by (cases as) (simp_all add: broadcast2_def)
qed

lemma broadcast2_maps:
  "broadcast2 f (map g xs) (map k xs) = Inr (map (\<lambda>x. f (g x) (k x)) xs)"
  by (simp add: broadcast2_def zip_map_map zip_same_conv_map)

lemma asarray2_rect:
  assumes "vs \<noteq> []" and "list_all (\<lambda>v. length v = d) vs"
  shows "asarray2 vs = Inr (A2 (Mat (length vs) d vs))"
proof (cases vs)
  case Nil
  with assms show ?thesis by simp
next
  case (Cons r rs)
  with assms show ?thesis by (simp add: asarray2_def list_all_iff)
qed

lemma np_T_row:
  "np_T (reshape_1_m1 qv) = Mat (length qv) 1 (map (\<lambda>j. [qv ! j]) [0..<length qv])"
  by (simp add: np_T_def reshape_1_m1_def)

lemma np_dot_column:
  "np_dot (Mat k (length qv) vs) (np_T (reshape_1_m1 qv)) =
     Inr (Mat k 1 (map (\<lambda>row. [sum_list (map2 (*) row qv)]) vs))"
  by (simp add: np_dot_def np_T_row o_def map_nth)

lemma similarity_arrays_rect:
  assumes "vs \<noteq> []" and "list_all (\<lambda>v. length v = length qv) vs"
  shows "similarity_arrays qv vs = Inr (map (\<lambda>v. cosine_similarity v qv) vs)"
proof -
  have nq: "linalg_norm_axis1 (reshape_1_m1 qv) = [sqrt (sum_list (map (\<lambda>x. x * x) qv))]"
    by (simp add: linalg_norm_axis1_def reshape_1_m1_def)
  have ng: "linalg_norm_axis1 (Mat (length vs) (length qv) vs) =
      map (\<lambda>row. sqrt (sum_list (map (\<lambda>x. x * x) row))) vs"
    by (simp add: linalg_norm_axis1_def)
  show ?thesis
    unfolding similarity_arrays_def Let_def asarray2_rect [OF assms] nq
    by (simp add: ng broadcast2_singleton np_dot_column reshape_m1_def o_def
        broadcast2_maps cosine_similarity_def dot_product_def l2_norm_def power2_eq_square)
qed

lemma similarity_arrays_empty: "similarity_arrays qv [] = Inl AxisError"
  by (simp add: similarity_arrays_def asarray2_def)

lemma calculate_similarity_replies:
  assumes "embed_query E h question = Inr qv"
    and "embed_documents E (h @ [EmbedQuery question]) gens = Inr vs"
  shows "calculate_similarity E question gens h =
     (h @ [EmbedQuery question, EmbedDocuments gens], similarity_arrays qv vs)"
  using assms by (simp add: calculate_similarity_def Let_def)

lemma stub_similarity:
  "calculate_similarity (stub_env gs) (Text q) gens h =
     (h @ [EmbedQuery (Text q), EmbedDocuments gens],
      similarity_arrays (stub_embed q) (map stub_embed gens))"
  by (simp add: calculate_similarity_def stub_env_def Let_def)

text \<open>
  C2. When both embedding calls succeed with at least one candidate vector, all of the
  dimension of the question vector, \<open>calculate_similarity\<close> returns, for each candidate
  in order, the dot product of its vector with the question vector divided by the product
  of their L2 norms. For the question vector [1,0] and the candidate vectors [[1,0],[0,1]]
  the result is [1.0, 0.0], whose max is 1.0. (Finite arithmetic is exact here.)
\<close>

theorem calculate_similarity_cosine:
  assumes "embed_query E h question = Inr qv"
    and "embed_documents E (h @ [EmbedQuery question]) gens = Inr vs"
    and "vs \<noteq> []"
    and "list_all (\<lambda>v. length v = length qv) vs"
  shows "calculate_similarity E question gens h =
           (h @ [EmbedQuery question, EmbedDocuments gens],
            Inr (map (\<lambda>v. cosine_similarity v qv) vs)) \<and>
         similarity_arrays [1, 0] [[1, 0], [0, 1]] = Inr [Fin 1, Fin 0] \<and>
         np_max [Fin 1, Fin 0] = Inr (Fin 1)"
proof -
  have general: "calculate_similarity E question gens h =
      (h @ [EmbedQuery question, EmbedDocuments gens], Inr (map (\<lambda>v. cosine_similarity v qv) vs))"
    using calculate_similarity_replies [OF assms(1,2)] similarity_arrays_rect [OF assms(3,4)]
    by simp
  have "similarity_arrays [1, 0] [[1, 0], [0, 1]] =
      Inr (map (\<lambda>v. cosine_similarity v [1, 0]) [[1, 0], [0, 1]])"
    by (rule similarity_arrays_rect) simp_all
  then have literal: "similarity_arrays [1, 0] [[1, 0], [0, 1]] = Inr [Fin 1, Fin 0]"
    by (simp add: cosine_similarity_def dot_product_def l2_norm_def np_div_def)
  have "np_max [Fin 1, Fin 0] = Inr (Fin 1)"
    by (simp add: fmax_def)
  with general literal show ?thesis by simp
qed

theorem calculate_similarity_cosine_witness:
  "calculate_similarity (stub_env []) (Text ''east'') [''east'', ''north''] [] =
     ([EmbedQuery (Text ''east''), EmbedDocuments [''east'', ''north'']], Inr [Fin 1, Fin 0])"
proof -
  have q: "embed_query (stub_env []) [] (Text ''east'') = Inr [1, 0]"
    by (simp add: stub_env_def stub_embed_def)
  have d: "embed_documents (stub_env []) ([] @ [EmbedQuery (Text ''east'')]) [''east'', ''north'']
      = Inr [[1, 0], [0, 1]]"
    by (simp add: stub_env_def stub_embed_def)
  have "calculate_similarity (stub_env []) (Text ''east'') [''east'', ''north''] [] =
      ([] @ [EmbedQuery (Text ''east''), EmbedDocuments [''east'', ''north'']],
       Inr (map (\<lambda>v. cosine_similarity v [1, 0]) [[1, 0], [0, 1]]))"
    using calculate_similarity_cosine [OF q d] by simp
  then show ?thesis
    by (simp add: cosine_similarity_def dot_product_def l2_norm_def np_div_def)
qed

lemma fle_not_nan: "fle x y \<Longrightarrow> x \<noteq> NaN \<and> y \<noteq> NaN"
  by (cases x; cases y) simp_all

lemma fle_refl: "x \<noteq> NaN \<Longrightarrow> fle x x"
  by (cases x) simp_all

lemma fle_trans: "fle x y \<Longrightarrow> fle y z \<Longrightarrow> fle x z"
  by (cases x; cases y; cases z) simp_all

lemma fle_total: "x \<noteq> NaN \<Longrightarrow> y \<noteq> NaN \<Longrightarrow> fle x y \<or> fle y x"
  by (cases x; cases y) auto

lemma foldl_fmax_nan: "NaN \<in> set (a # xs) \<Longrightarrow> foldl fmax a xs = NaN"
proof (induction xs arbitrary: a)
  case Nil
  then show ?case by simp
next
  case (Cons x xs)
  show ?case
  proof (cases "a = NaN \<or> x = NaN")
    case True
    then have "fmax a x = NaN" by (auto simp: fmax_def)
    then show ?thesis using Cons.IH [of "fmax a x"] by simp
  next
    case False
    with Cons.prems have "NaN \<in> set xs" by auto
    then show ?thesis using Cons.IH [of "fmax a x"] by simp
  qed
qed

lemma foldl_fmax_max:
  "NaN \<notin> set (a # xs) \<Longrightarrow>
     foldl fmax a xs \<in> set (a # xs) \<and> (\<forall>x \<in> set (a # xs). fle x (foldl fmax a xs))"
proof (induction xs arbitrary: a)
  case Nil
  then show ?case by (simp add: fle_refl)
next
  case (Cons y ys)
  from Cons.prems have nn: "a \<noteq> NaN" "y \<noteq> NaN" "NaN \<notin> set ys" by auto
  let ?b = "fmax a y"
  have b: "?b = (if fle a y then y else a)" using nn by (simp add: fmax_def)
  then have bnn: "NaN \<notin> set (?b # ys)" using nn by auto
  have ab: "fle a ?b" and yb: "fle y ?b"
    using nn fle_total [of a y] by (auto simp: b fle_refl)
  from Cons.IH [OF bnn]
  have mem: "foldl fmax ?b ys \<in> set (?b # ys)"
    and ub: "\<forall>x \<in> set (?b # ys). fle x (foldl fmax ?b ys)" by auto
  from ub have "fle ?b (foldl fmax ?b ys)" by simp
  with ab yb have "fle a (foldl fmax ?b ys)" "fle y (foldl fmax ?b ys)"
    by (blast intro: fle_trans)+
  moreover have "?b \<in> {a, y}" by (simp add: b)
  ultimately show ?case using mem ub by auto
qed

lemma np_max_nan: "NaN \<in> set xs \<Longrightarrow> np_max xs = Inr NaN"
  by (cases xs) (simp_all only: np_max.simps foldl_fmax_nan list.set empty_iff)

lemma np_max_max:
  assumes "np_max xs = Inr s" and "NaN \<notin> set xs"
  shows "s \<in> set xs \<and> (\<forall>x \<in> set xs. fle x s)"
proof (cases xs)
  case Nil
  with assms show ?thesis by simp
next
  case (Cons a as)
  with assms foldl_fmax_max [of a as] show ?thesis by simp
qed

lemma np_max_nonempty: "xs \<noteq> [] \<Longrightarrow> \<exists>s. np_max xs = Inr s"
  by (cases xs) simp_all

lemma sum_squares_zero:
  "sum_list (map (\<lambda>x. x\<^sup>2) (v::real list)) = 0 \<Longrightarrow> list_all (\<lambda>x. x = 0) v"
proof (induction v)
  case Nil
  then show ?case by simp
next
  case (Cons a v)
  have nn: "0 \<le> sum_list (map (\<lambda>x. x\<^sup>2) v)"
    by (rule sum_list_nonneg) auto
  from Cons.prems have "a\<^sup>2 + sum_list (map (\<lambda>x. x\<^sup>2) v) = 0" by simp
  with nn have "a\<^sup>2 = 0" and "sum_list (map (\<lambda>x. x\<^sup>2) v) = 0"
    by (simp_all add: add_nonneg_eq_0_iff)
  with Cons.IH show ?case by simp
qed

lemma dot_product_zero: "list_all (\<lambda>x. x = 0) v \<Longrightarrow> dot_product v q = 0"
proof (induction v arbitrary: q)
  case Nil
  then show ?case by (simp add: dot_product_def)
next
  case (Cons a v)
  then show ?case by (cases q) (simp_all add: dot_product_def)
qed

lemma cosine_zero_norm: "l2_norm v = 0 \<Longrightarrow> cosine_similarity v q = NaN"
proof -
  assume "l2_norm v = 0"
  then have "sum_list (map (\<lambda>x. x\<^sup>2) v) = 0" by (simp add: l2_norm_def)
  then have "dot_product v q = 0" by (intro dot_product_zero sum_squares_zero)
  with \<open>l2_norm v = 0\<close> show ?thesis by (simp add: cosine_similarity_def np_div_def)
qed

text \<open>
  C7. A candidate whose embedding has L2 norm zero gets the similarity NaN: the division
  by the zero norm is not guarded, the value is not 0, and the max of the record, which
  propagates NaN, is NaN as well.
\<close>

theorem zero_norm_candidate_nan:
  assumes "embed_query E h question = Inr qv"
    and "embed_documents E (h @ [EmbedQuery question]) gens = Inr vs"
    and "list_all (\<lambda>v. length v = length qv) vs"
    and "i < length vs"
    and "l2_norm (vs ! i) = 0"
  shows "\<exists>sims. calculate_similarity E question gens h =
                  (h @ [EmbedQuery question, EmbedDocuments gens], Inr sims) \<and>
                length sims = length vs \<and> sims ! i = NaN \<and> sims ! i \<noteq> Fin 0 \<and>
                np_max sims = Inr NaN"
proof -
  let ?sims = "map (\<lambda>v. cosine_similarity v qv) vs"
  from assms(4) have ne: "vs \<noteq> []" by auto
  have run: "calculate_similarity E question gens h =
      (h @ [EmbedQuery question, EmbedDocuments gens], Inr ?sims)"
    using calculate_similarity_replies [OF assms(1,2)] similarity_arrays_rect [OF ne assms(3)]
    by simp
  have at_i: "?sims ! i = NaN"
    using assms(4,5) by (simp add: cosine_zero_norm)
  then have "NaN \<in> set ?sims"
    using assms(4) by (metis length_map nth_mem)
  then have "np_max ?sims = Inr NaN" by (rule np_max_nan)
  with run at_i show ?thesis by simp
qed

theorem zero_norm_candidate_nan_witness:
  "calculate_similarity (stub_env []) (Text ''east'') [''east'', ''nowhere''] [] =
     ([EmbedQuery (Text ''east''), EmbedDocuments [''east'', ''nowhere'']], Inr [Fin 1, NaN]) \<and>
   np_max [Fin 1, NaN] = Inr NaN"
proof -
  have q: "embed_query (stub_env []) [] (Text ''east'') = Inr [1, 0]"
    by (simp add: stub_env_def stub_embed_def)
  have d: "embed_documents (stub_env []) ([] @ [EmbedQuery (Text ''east'')]) [''east'', ''nowhere'']
      = Inr [[1, 0], [0, 0]]"
    by (simp add: stub_env_def stub_embed_def)
  have z: "l2_norm ([[1, 0], [0, 0]] ! 1) = 0" by (simp add: l2_norm_def)
  from zero_norm_candidate_nan [OF q d _ _ z]
  obtain sims where s: "calculate_similarity (stub_env []) (Text ''east'') [''east'', ''nowhere''] [] =
      ([] @ [EmbedQuery (Text ''east''), EmbedDocuments [''east'', ''nowhere'']], Inr sims)"
      "sims ! 1 = NaN" "np_max sims = Inr NaN"
    by auto
  have "calculate_similarity (stub_env []) (Text ''east'') [''east'', ''nowhere''] [] =
      ([EmbedQuery (Text ''east''), EmbedDocuments [''east'', ''nowhere'']], Inr [Fin 1, NaN])"
    by (simp add: stub_similarity stub_embed_def similarity_arrays_rect cosine_similarity_def
        dot_product_def l2_norm_def np_div_def)
  with s show ?thesis by simp
qed

subsection \<open>The loop over the records of a batch\<close>

lemma similarity_arrays_Inr:
  assumes "similarity_arrays qv vs = Inr sims"
  shows "vs \<noteq> [] \<and> list_all (\<lambda>v. length v = length qv) vs \<and>
         sims = map (\<lambda>v. cosine_similarity v qv) vs"
proof (cases vs)
  case Nil
  with assms show ?thesis by (simp add: similarity_arrays_empty)
next
  case (Cons r rs)
  show ?thesis
  proof (cases "list_all (\<lambda>r'. length r' = length r) rs")
    case False
    with assms Cons show ?thesis by (simp add: similarity_arrays_def asarray2_def)
  next
    case True
    with Cons have rect: "list_all (\<lambda>v. length v = length r) vs" by simp
    have ne: "vs \<noteq> []" using Cons by simp
    have "length r = length qv"
    proof (rule ccontr)
      assume neq: "length r \<noteq> length qv"
      have "similarity_arrays qv vs = Inl ValueError"
        unfolding similarity_arrays_def Let_def asarray2_rect [OF ne rect]
        using neq
        by (simp add: np_dot_def np_T_def reshape_1_m1_def linalg_norm_axis1_def
            broadcast2_singleton)
      with assms show False by simp
    qed
    with rect have all: "list_all (\<lambda>v. length v = length qv) vs" by simp
    with assms similarity_arrays_rect [OF ne all] ne show ?thesis by simp
  qed
qed

lemma calculate_similarity_Inr:
  assumes "calculate_similarity E question gens h = (h', Inr sims)"
  shows "\<exists>qv vs. embed_query E h question = Inr qv \<and>
           embed_documents E (h @ [EmbedQuery question]) gens = Inr vs \<and>
           h' = h @ [EmbedQuery question, EmbedDocuments gens] \<and>
           vs \<noteq> [] \<and> list_all (\<lambda>v. length v = length qv) vs \<and>
           sims = map (\<lambda>v. cosine_similarity v qv) vs"
proof (cases "embed_query E h question")
  case (Inl e)
  with assms show ?thesis by (simp add: calculate_similarity_def Let_def)
next
  case q: (Inr qv)
  show ?thesis
  proof (cases "embed_documents E (h @ [EmbedQuery question]) gens")
    case (Inl e)
    with assms q show ?thesis by (simp add: calculate_similarity_def Let_def)
  next
    case d: (Inr vs)
    from assms calculate_similarity_replies [OF q d]
    have "h' = h @ [EmbedQuery question, EmbedDocuments gens]"
      and "similarity_arrays qv vs = Inr sims" by simp_all
    with q d similarity_arrays_Inr [of qv vs sims] show ?thesis by simp
  qed
qed

lemma score_pairs_Inr:
  assumes "score_pairs E ps acc h = (h', Inr scores)"
  shows "length scores = length acc + length ps \<and> take (length acc) scores = acc \<and>
         (\<forall>i<length ps. \<exists>hi hi' sims.
             calculate_similarity E (fst (ps ! i)) (snd (ps ! i)) hi = (hi', Inr sims) \<and>
             np_max sims = Inr (scores ! (length acc + i)))"
  using assms
proof (induction ps arbitrary: acc h)
  case Nil
  then show ?case by simp
next
  case (Cons p ps)
  obtain q gens where p: "p = (q, gens)" by (cases p)
  obtain h1 r where c: "calculate_similarity E q gens h = (h1, r)"
    by (cases "calculate_similarity E q gens h")
  from Cons.prems p c obtain sims where r: "r = Inr sims"
    by (cases r) simp_all
  from Cons.prems p c r obtain s where m: "np_max sims = Inr s"
    by (cases "np_max sims") simp_all
  from Cons.prems p c r m have rest: "score_pairs E ps (acc @ [s]) h1 = (h', Inr scores)"
    by simp
  from Cons.IH [OF rest]
  have len: "length scores = length acc + 1 + length ps"
    and pre: "take (length acc + 1) scores = acc @ [s]"
    and ih: "\<forall>i<length ps. \<exists>hi hi' sims.
             calculate_similarity E (fst (ps ! i)) (snd (ps ! i)) hi = (hi', Inr sims) \<and>
             np_max sims = Inr (scores ! (length acc + 1 + i))"
    by simp_all
  have pre0: "take (length acc) scores = acc"
  proof -
    have "take (length acc) (take (length acc + 1) scores) = take (length acc) (acc @ [s])"
      by (simp only: pre)
    then show ?thesis by simp
  qed
  have at: "scores ! length acc = s"
  proof -
    have "take (length acc + 1) scores ! length acc = (acc @ [s]) ! length acc"
      by (simp only: pre)
    then show ?thesis by simp
  qed
  have "\<exists>hi hi' sims.
          calculate_similarity E (fst ((p # ps) ! i)) (snd ((p # ps) ! i)) hi = (hi', Inr sims) \<and>
          np_max sims = Inr (scores ! (length acc + i))" if "i < length (p # ps)" for i
  proof (cases i)
    case 0
    with p c r m at show ?thesis by auto
  next
    case (Suc j)
    with that ih show ?thesis by simp
  qed
  with len pre0 show ?case by simp
qed

lemma np_max_is_max: "np_max xs = Inr s \<Longrightarrow> is_max_of xs s"
proof (cases "NaN \<in> set xs")
  case True
  assume "np_max xs = Inr s"
  with np_max_nan [OF True] True show ?thesis by (simp add: is_max_of_def)
next
  case False
  assume "np_max xs = Inr s"
  from np_max_max [OF this False] False show ?thesis
    by (simp add: is_max_of_def list_all_iff)
qed

lemma score_batch_Inr:
  assumes "score_batch E m ds h = (h', Inr scores)"
  shows "\<exists>questions answers results.
           getitem ds ''question'' = Inr questions \<and>
           getitem ds ''answer'' = Inr answers \<and>
           llm_generate E h (map (\<lambda>ans. [QUESTION_GEN_format E ans]) answers) (strictness m)
             = Inr results \<and>
           score_pairs E (zip questions results) []
             (h @ [Generate (map (\<lambda>ans. [QUESTION_GEN_format E ans]) answers) (strictness m)])
             = (h', Inr scores)"
proof (cases "getitem ds ''question''")
  case (Inl e)
  with assms show ?thesis by (simp add: score_batch_def)
next
  case q: (Inr questions)
  show ?thesis
  proof (cases "getitem ds ''answer''")
    case (Inl e)
    with assms q show ?thesis by (simp add: score_batch_def)
  next
    case a: (Inr answers)
    show ?thesis
    proof (cases "llm_generate E h (map (\<lambda>ans. [QUESTION_GEN_format E ans]) answers)
                    (strictness m)")
      case (Inl e)
      with assms q a show ?thesis by (simp add: score_batch_def Let_def)
    next
      case (Inr results)
      with assms q a show ?thesis by (simp add: score_batch_def Let_def)
    qed
  qed
qed

text \<open>
  C3. When \<open>_score_batch\<close> returns, it returns one score for each pair of a question
  and its list of generated questions, in order, and the score of a record is the maximum
  of the similarity array of that record: the array has one cosine similarity for each
  embedded candidate, and the score is one of them that none of them exceeds (NaN when
  one of them is NaN). It is not their average.
\<close>

theorem score_batch_max:
  assumes "score_batch E m ds h = (h', Inr scores)"
  shows "\<exists>questions answers results.
           getitem ds ''question'' = Inr questions \<and>
           getitem ds ''answer'' = Inr answers \<and>
           llm_generate E h (map (\<lambda>ans. [QUESTION_GEN_format E ans]) answers) (strictness m)
             = Inr results \<and>
           length scores = min (length questions) (length results) \<and>
           (\<forall>i<length scores. \<exists>hi qv vs.
              embed_query E hi (questions ! i) = Inr qv \<and>
              embed_documents E (hi @ [EmbedQuery (questions ! i)]) (results ! i) = Inr vs \<and>
              np_max (map (\<lambda>v. cosine_similarity v qv) vs) = Inr (scores ! i) \<and>
              is_max_of (map (\<lambda>v. cosine_similarity v qv) vs) (scores ! i))"
proof -
  from score_batch_Inr [OF assms] obtain questions answers results where
    q: "getitem ds ''question'' = Inr questions" and
    a: "getitem ds ''answer'' = Inr answers" and
    g: "llm_generate E h (map (\<lambda>ans. [QUESTION_GEN_format E ans]) answers) (strictness m)
          = Inr results" and
    run: "score_pairs E (zip questions results) []
            (h @ [Generate (map (\<lambda>ans. [QUESTION_GEN_format E ans]) answers) (strictness m)])
            = (h', Inr scores)"
    by blast
  from score_pairs_Inr [OF run]
  have len: "length scores = min (length questions) (length results)"
    and each: "\<forall>i<length (zip questions results). \<exists>hi hi' sims.
        calculate_similarity E (fst (zip questions results ! i)) (snd (zip questions results ! i)) hi
          = (hi', Inr sims) \<and> np_max sims = Inr (scores ! i)"
    by simp_all
  have "\<exists>hi qv vs.
          embed_query E hi (questions ! i) = Inr qv \<and>
          embed_documents E (hi @ [EmbedQuery (questions ! i)]) (results ! i) = Inr vs \<and>
          np_max (map (\<lambda>v. cosine_similarity v qv) vs) = Inr (scores ! i) \<and>
          is_max_of (map (\<lambda>v. cosine_similarity v qv) vs) (scores ! i)"
    if i: "i < length scores" for i
  proof -
    from i len have iz: "i < length (zip questions results)" by simp
    with each obtain hi hi' sims where
      c: "calculate_similarity E (questions ! i) (results ! i) hi = (hi', Inr sims)" and
      mx: "np_max sims = Inr (scores ! i)"
      by fastforce
    from calculate_similarity_Inr [OF c] obtain qv vs where
      "embed_query E hi (questions ! i) = Inr qv"
      "embed_documents E (hi @ [EmbedQuery (questions ! i)]) (results ! i) = Inr vs"
      "sims = map (\<lambda>v. cosine_similarity v qv) vs"
      by blast
    with mx np_max_is_max [OF mx] show ?thesis by blast
  qed
  with q a g len show ?thesis by blast
qed

lemma stub_score_batch_one_row:
  "score_batch (stub_env [''north'', ''east'', ''west'']) answer_relevancy one_row [] =
     ([Generate [[QUESTION_GEN_format (stub_env [''north'', ''east'', ''west'']) (Text ''sunrise'')]] 3,
       EmbedQuery (Text ''east''), EmbedDocuments [''north'', ''east'', ''west'']],
      Inr [Fin 1])"
proof -
  have sims: "similarity_arrays [1, 0] [[0, 1], [1, 0], [- 1, 0]] = Inr [Fin 0, Fin 1, Fin (- 1)]"
    by (simp add: similarity_arrays_rect cosine_similarity_def dot_product_def l2_norm_def
        np_div_def)
  have mx: "np_max [Fin 0, Fin 1, Fin (- 1)] = Inr (Fin 1)"
    by (simp add: fmax_def)
  have gen: "llm_generate (stub_env [''north'', ''east'', ''west'']) h ps n =
      Inr (map (\<lambda>p. [''north'', ''east'', ''west'']) ps)" for h ps n
    by (simp add: stub_env_def)
  show ?thesis
    by (simp add: score_batch_def getitem_def one_row_def answer_relevancy_def gen
        stub_similarity stub_embed_def sims mx del: np_max.simps)
qed

theorem score_batch_max_witness:
  "score_batch (stub_env [''north'', ''east'', ''west'']) answer_relevancy one_row [] =
     ([Generate [[QUESTION_GEN_format (stub_env [''north'', ''east'', ''west'']) (Text ''sunrise'')]] 3,
       EmbedQuery (Text ''east''), EmbedDocuments [''north'', ''east'', ''west'']],
      Inr [Fin 1]) \<and>
   (\<exists>hi qv vs.
      embed_query (stub_env [''north'', ''east'', ''west'']) hi (Text ''east'') = Inr qv \<and>
      embed_documents (stub_env [''north'', ''east'', ''west'']) (hi @ [EmbedQuery (Text ''east'')])
        [''north'', ''east'', ''west''] = Inr vs \<and>
      is_max_of (map (\<lambda>v. cosine_similarity v qv) vs) (Fin 1))"
proof -
  let ?E = "stub_env [''north'', ''east'', ''west'']"
  note run = stub_score_batch_one_row
  from score_batch_max [OF run] obtain questions answers results where
    q: "getitem one_row ''question'' = Inr questions" and
    g: "llm_generate ?E [] (map (\<lambda>ans. [QUESTION_GEN_format ?E ans]) answers)
          (strictness answer_relevancy) = Inr results" and
    a: "getitem one_row ''answer'' = Inr answers" and
    each: "\<forall>i<length [Fin 1 :: npfloat]. \<exists>hi qv vs.
        embed_query ?E hi (questions ! i) = Inr qv \<and>
        embed_documents ?E (hi @ [EmbedQuery (questions ! i)]) (results ! i) = Inr vs \<and>
        np_max (map (\<lambda>v. cosine_similarity v qv) vs) = Inr ([Fin 1] ! i) \<and>
        is_max_of (map (\<lambda>v. cosine_similarity v qv) vs) ([Fin 1] ! i)"
    by blast
  from q have qs: "questions = [Text ''east'']"
    by (simp add: getitem_def one_row_def)
  from a have as: "answers = [Text ''sunrise'']"
    by (simp add: getitem_def one_row_def)
  from g as have rs: "results = [[''north'', ''east'', ''west'']]"
    by (simp add: stub_env_def)
  from each qs rs have "\<exists>hi qv vs.
      embed_query ?E hi (Text ''east'') = Inr qv \<and>
      embed_documents ?E (hi @ [EmbedQuery (Text ''east'')]) [''north'', ''east'', ''west''] = Inr vs \<and>
      is_max_of (map (\<lambda>v. cosine_similarity v qv) vs) (Fin 1)"
    by simp blast
  with run show ?thesis by blast
qed

subsection \<open>The calls made to the clients\<close>

lemma calculate_similarity_history:
  "\<exists>rest. fst (calculate_similarity E q gens h) = h @ rest \<and>
          list_all (\<lambda>c. \<not> is_generate c) rest"
  by (auto simp: calculate_similarity_def Let_def split: sum.splits)

lemma score_pairs_history:
  "\<exists>rest. fst (score_pairs E ps acc h) = h @ rest \<and> list_all (\<lambda>c. \<not> is_generate c) rest"
proof (induction ps arbitrary: acc h)
  case Nil
  show ?case by simp
next
  case (Cons p ps)
  obtain q gens where p: "p = (q, gens)" by (cases p)
  obtain h1 r where c: "calculate_similarity E q gens h = (h1, r)"
    by (cases "calculate_similarity E q gens h")
  from calculate_similarity_history [of E q gens h] c
  obtain r1 where h1: "h1 = h @ r1" and r1: "list_all (\<lambda>c. \<not> is_generate c) r1"
    by auto
  show ?case
  proof (cases r)
    case (Inl e)
    with p c h1 r1 show ?thesis by simp
  next
    case sims: (Inr sims)
    show ?thesis
    proof (cases "np_max sims")
      case (Inl e)
      with p c sims h1 r1 show ?thesis by simp
    next
      case (Inr s)
      from Cons.IH [of "acc @ [s]" h1]
      obtain r2 where "fst (score_pairs E ps (acc @ [s]) h1) = h1 @ r2"
        and "list_all (\<lambda>c. \<not> is_generate c) r2" by blast
      with p c sims Inr h1 r1 show ?thesis by simp
    qed
  qed
qed

text \<open>
  C6. A batch makes exactly one call to the generation client: its prompts are, in order,
  one prompt per answer of the batch (the template filled with that answer), and the
  number of completions asked for each prompt is \<open>strictness\<close>, 3 by default. Every other
  call of the batch is a call to the embedding client.
\<close>

theorem score_batch_requests_strictness:
  assumes "getitem ds ''question'' = Inr questions"
    and "getitem ds ''answer'' = Inr answers"
  shows "(\<exists>rest. fst (score_batch E m ds h) =
             h @ Generate (map (\<lambda>ans. [QUESTION_GEN_format E ans]) answers) (strictness m) # rest \<and>
             list_all (\<lambda>c. \<not> is_generate c) rest) \<and>
         length (map (\<lambda>ans. [QUESTION_GEN_format E ans]) answers) = length answers \<and>
         strictness answer_relevancy = 3"
proof -
  let ?prompts = "map (\<lambda>ans. [QUESTION_GEN_format E ans]) answers"
  let ?h1 = "h @ [Generate ?prompts (strictness m)]"
  have "\<exists>rest. fst (score_batch E m ds h) = ?h1 @ rest \<and> list_all (\<lambda>c. \<not> is_generate c) rest"
  proof (cases "llm_generate E h ?prompts (strictness m)")
    case (Inl e)
    with assms show ?thesis by (simp add: score_batch_def Let_def)
  next
    case (Inr results)
    with assms have "score_batch E m ds h = score_pairs E (zip questions results) [] ?h1"
      by (simp add: score_batch_def Let_def)
    with score_pairs_history [of E "zip questions results" "[]" ?h1] show ?thesis by simp
  qed
  then show ?thesis by (simp add: answer_relevancy_def)
qed

theorem score_batch_requests_strictness_witness:
  "getitem one_row ''question'' = Inr [Text ''east''] \<and>
   getitem one_row ''answer'' = Inr [Text ''sunrise''] \<and>
   (\<exists>rest. fst (score_batch (stub_env [''north'', ''east'', ''west'']) answer_relevancy one_row []) =
      Generate [[QUESTION_GEN_format (stub_env [''north'', ''east'', ''west'']) (Text ''sunrise'')]] 3
        # rest \<and>
      list_all (\<lambda>c. \<not> is_generate c) rest)"
proof -
  have q: "getitem one_row ''question'' = Inr [Text ''east'']"
    by (simp add: getitem_def one_row_def)
  have a: "getitem one_row ''answer'' = Inr [Text ''sunrise'']"
    by (simp add: getitem_def one_row_def)
  note t = score_batch_requests_strictness [OF q a, of "stub_env [''north'', ''east'', ''west'']"
      answer_relevancy "[]"]
  from t [THEN conjunct2, THEN conjunct2] have st: "strictness answer_relevancy = 3" .
  from t [THEN conjunct1]
  have "\<exists>rest. fst (score_batch (stub_env [''north'', ''east'', ''west'']) answer_relevancy one_row []) =
      Generate [[QUESTION_GEN_format (stub_env [''north'', ''east'', ''west'']) (Text ''sunrise'')]]
        3 # rest \<and>
      list_all (\<lambda>c. \<not> is_generate c) rest"
    unfolding st by simp
  then show ?thesis using q a by simp
qed

subsection \<open>No generated question\<close>

text \<open>
  C9 as stated fails: with no generated question the similarity array is never built, so
  no max is taken over an empty array. \<open>np.asarray\<close> of the empty list of
  embeddings is one-dimensional, and \<open>np.linalg.norm(..., axis=1)\<close> raises on it.
\<close>

theorem empty_candidates_counterexample:
  "calculate_similarity (stub_env []) (Text ''east'') [] [] =
     ([EmbedQuery (Text ''east''), EmbedDocuments []], Inl AxisError) \<and>
   snd (calculate_similarity (stub_env []) (Text ''east'') [] []) \<noteq> Inr []"
  by (simp add: stub_similarity similarity_arrays_empty)

text \<open>
  C9, amended. If the list of generated questions of a record is empty and the embedding
  client returns no vector for it, scoring the record fails in \<open>calculate_similarity\<close>
  with AxisError, before the max reduction; the loop stops there, no score is produced for
  the record, and no default score is returned.
\<close>

theorem empty_candidates_fail:
  assumes "embed_query E h question = Inr qv"
    and "embed_documents E (h @ [EmbedQuery question]) [] = Inr []"
  shows "calculate_similarity E question [] h =
           (h @ [EmbedQuery question, EmbedDocuments []], Inl AxisError) \<and>
         score_pairs E ((question, []) # rest) scores h =
           (h @ [EmbedQuery question, EmbedDocuments []], Inl AxisError)"
proof -
  have "calculate_similarity E question [] h =
      (h @ [EmbedQuery question, EmbedDocuments []], Inl AxisError)"
    using calculate_similarity_replies [OF assms] by (simp add: similarity_arrays_empty)
  then show ?thesis by simp
qed

theorem empty_candidates_fail_witness:
  "score_pairs (stub_env []) [(Text ''east'', []), (Text ''north'', [''north''])] [] [] =
     ([EmbedQuery (Text ''east''), EmbedDocuments []], Inl AxisError)"
proof -
  have q: "embed_query (stub_env []) [] (Text ''east'') = Inr [1, 0]"
    by (simp add: stub_env_def stub_embed_def)
  have d: "embed_documents (stub_env []) ([] @ [EmbedQuery (Text ''east'')]) [] = Inr []"
    by (simp add: stub_env_def)
  from empty_candidates_fail [OF q d, of "[(Text ''north'', [''north''])]" "[]"]
  show ?thesis by simp
qed

subsection \<open>Batches\<close>

lemma concat_ranges:
  "concat (map (\<lambda>k. [k * bs..<min (k * bs + bs) n]) [0..<K]) = [0..<min (K * bs) n]"
proof (induction K)
  case 0
  show ?case by simp
next
  case (Suc K)
  have "[0..<min (K * bs) n] @ [K * bs..<min (K * bs + bs) n] = [0..<min (K * bs + bs) n]"
  proof (cases "K * bs \<le> n")
    case True
    then have "[0..<K * bs + (min (K * bs + bs) n - K * bs)] =
        [0..<K * bs] @ [K * bs..<K * bs + (min (K * bs + bs) n - K * bs)]"
      by (intro upt_add_eq_append) simp
    with True show ?thesis by (simp add: min_absorb1)
  next
    case False
    then show ?thesis by (simp add: min_absorb2)
  qed
  with Suc show ?case by (simp add: add.commute)
qed

lemma ceil_div_bounds:
  assumes "0 < (bs::nat)"
  shows "n \<le> ((n + bs - 1) div bs) * bs"
    and "0 < n \<Longrightarrow> ((n + bs - 1) div bs - 1) * bs < n"
proof -
  let ?K = "(n + bs - 1) div bs"
  have m: "(n + bs - 1) mod bs < bs" using assms by simp
  have eq: "?K * bs + (n + bs - 1) mod bs = n + bs - 1" by simp
  from m eq assms show "n \<le> ?K * bs" by linarith
  assume n: "0 < n"
  then have "bs \<le> n + bs - 1" by simp
  then have K: "0 < ?K" using assms by (simp add: div_greater_zero_iff)
  then have "(?K - 1) * bs + bs = ?K * bs"
    by (metis Suc_diff_1 mult_Suc One_nat_def add.commute)
  with eq n show "(?K - 1) * bs < n" by linarith
qed

lemma get_batches_unfold:
  "get_batches m n =
     map (\<lambda>k. (k * nat (batch_size m), min (k * nat (batch_size m) + nat (batch_size m)) n))
         [0..<(n + nat (batch_size m) - 1) div nat (batch_size m)]"
  by (simp add: get_batches_def Let_def)

lemma get_batches_cover:
  assumes "0 < batch_size m"
  shows "concat (map batch_indices (get_batches m n)) = [0..<n]"
proof -
  let ?bs = "nat (batch_size m)"
  from assms have bs: "0 < ?bs" by simp
  have "concat (map batch_indices (get_batches m n)) =
      [0..<min (((n + ?bs - 1) div ?bs) * ?bs) n]"
    unfolding get_batches_unfold
    by (simp add: o_def batch_indices_def concat_ranges)
  with ceil_div_bounds(1) [OF bs, of n] show ?thesis by (simp add: min_absorb2)
qed

lemma get_batches_member:
  assumes "0 < batch_size m" and "r \<in> set (get_batches m n)"
  shows "fst r < snd r \<and> snd r \<le> n \<and> batch_len r \<le> nat (batch_size m)"
proof -
  let ?bs = "nat (batch_size m)"
  let ?K = "(n + ?bs - 1) div ?bs"
  from assms(1) have bs: "0 < ?bs" by simp
  from assms(2) obtain k where k: "k < ?K" and r: "r = (k * ?bs, min (k * ?bs + ?bs) n)"
    by (auto simp: get_batches_unfold)
  from k have n: "0 < n" using bs by (cases n) simp_all
  from k have "k \<le> ?K - 1" by linarith
  then have "k * ?bs \<le> (?K - 1) * ?bs" by (rule mult_le_mono1)
  with ceil_div_bounds(2) [OF bs n] have "k * ?bs < n" by linarith
  with r bs show ?thesis by (simp add: batch_len_def)
qed

lemma butlast_upt0: "butlast [0..<K] = [0..<K - 1]"
  by (cases K) simp_all

lemma get_batches_full:
  assumes "0 < batch_size m" and "r \<in> set (butlast (get_batches m n))"
  shows "batch_len r = nat (batch_size m)"
proof -
  let ?bs = "nat (batch_size m)"
  let ?K = "(n + ?bs - 1) div ?bs"
  from assms(1) have bs: "0 < ?bs" by simp
  have "butlast (get_batches m n) =
      map (\<lambda>k. (k * ?bs, min (k * ?bs + ?bs) n)) (butlast [0..<?K])"
    unfolding get_batches_unfold by (simp add: map_butlast)
  with assms(2) obtain k where k: "k < ?K - 1" and r: "r = (k * ?bs, min (k * ?bs + ?bs) n)"
    by (auto simp: butlast_upt0)
  from k have n: "0 < n" using bs by (cases n) simp_all
  from k have "Suc k \<le> ?K - 1" by simp
  then have "Suc k * ?bs \<le> (?K - 1) * ?bs" by (rule mult_le_mono1)
  with ceil_div_bounds(2) [OF bs n] have "k * ?bs + ?bs \<le> n" by simp
  with r show ?thesis by (simp add: batch_len_def min_absorb1)
qed

text \<open>
  C5. With a positive batch size the batches are contiguous index ranges that, taken in
  order, enumerate the row indices 0 to n - 1 exactly once each (no gap, no overlap,
  full coverage); every range holds at least one and at most \<open>batch_size\<close> indices, and
  every range but the last holds exactly \<open>batch_size\<close>. With batch size 15, 32 rows give
  the ranges [0:15], [15:30], [30:32].
\<close>

theorem get_batches_partition:
  assumes "0 < batch_size m"
  shows "concat (map batch_indices (get_batches m n)) = [0..<n] \<and>
         list_all (\<lambda>r. fst r < snd r \<and> snd r \<le> n \<and> batch_len r \<le> nat (batch_size m))
           (get_batches m n) \<and>
         list_all (\<lambda>r. batch_len r = nat (batch_size m)) (butlast (get_batches m n)) \<and>
         get_batches answer_relevancy 32 = [(0, 15), (15, 30), (30, 32)]"
proof -
  have "get_batches answer_relevancy 32 = [(0, 15), (15, 30), (30, 32)]"
    by (simp add: get_batches_def answer_relevancy_def upt_rec)
  with get_batches_cover [OF assms] get_batches_member [OF assms] get_batches_full [OF assms]
  show ?thesis by (simp add: list_all_iff)
qed

theorem get_batches_partition_witness:
  "concat (map batch_indices [(0, 15), (15, 30), (30, 32)]) = [0..<32] \<and>
   get_batches answer_relevancy 32 = [(0, 15), (15, 30), (30, 32)] \<and>
   list_all (\<lambda>r. batch_len r = 15) (butlast (get_batches answer_relevancy 32))"
proof -
  have p: "0 < batch_size answer_relevancy" by (simp add: answer_relevancy_def)
  have b: "nat (batch_size answer_relevancy) = 15" by (simp add: answer_relevancy_def)
  note t = get_batches_partition [OF p, of 32]
  from t have g: "get_batches answer_relevancy 32 = [(0, 15), (15, 30), (30, 32)]"
    by blast
  from t have "concat (map batch_indices (get_batches answer_relevancy 32)) = [0..<32]"
    by blast
  then have c: "concat (map batch_indices [(0, 15), (15, 30), (30, 32)]) = [0..<32]"
    by (simp only: g)
  from t have "list_all (\<lambda>r. batch_len r = nat (batch_size answer_relevancy))
      (butlast (get_batches answer_relevancy 32))"
    by blast
  then have f: "list_all (\<lambda>r. batch_len r = 15) (butlast (get_batches answer_relevancy 32))"
    by (simp only: b)
  from c g f show ?thesis by (intro conjI)
qed

subsection \<open>The table operations\<close>

lemma add_column_Inr:
  assumes "add_column ds nm col = Inr out"
  shows "nm \<notin> set (map fst (columns ds)) \<and> length col = num_rows ds \<and>
         out = ds\<lparr>columns := columns ds @ [(nm, col)]\<rparr>"
  using assms by (auto simp: add_column_def split: if_splits)

lemma map_of_map_snd:
  "map_of (map (\<lambda>c. (fst c, f (snd c))) xs) k = map_option f (map_of xs k)"
  by (induction xs) auto

lemma getitem_select:
  assumes "getitem ds key = Inr col" and "a < b" and "b \<le> num_rows ds"
  shows "\<exists>sub. select ds (a, b) = Inr sub \<and> getitem sub key = Inr (take (b - a) (drop a col))"
proof -
  from assms(1) have "map_of (columns ds) key = Some col"
    by (simp add: getitem_def split: option.splits)
  with assms(2,3) show ?thesis
    by (simp add: select_def getitem_def
        map_of_map_snd [of "\<lambda>x. take (b - a) (drop a x)" "columns ds" key])
qed

lemma getitem_length:
  assumes "wf_dataset ds" and "getitem ds key = Inr col"
  shows "length col = num_rows ds"
proof -
  from assms(2) have "map_of (columns ds) key = Some col"
    by (simp add: getitem_def split: option.splits)
  then have "(key, col) \<in> set (columns ds)" by (rule map_of_SomeD)
  with assms(1) show ?thesis by (auto simp: wf_dataset_def list_all_iff)
qed

subsection \<open>Scoring returns when the clients keep their contracts\<close>

lemma calculate_similarity_total:
  assumes "clients_ok E d" and "gens \<noteq> []"
  shows "\<exists>h' sims. calculate_similarity E (Text s) gens h = (h', Inr sims) \<and> sims \<noteq> []"
proof -
  from assms(1) obtain qv where q: "embed_query E h (Text s) = Inr qv" and lq: "length qv = d"
    unfolding clients_ok_def by blast
  from assms(1) obtain vs where
    v: "embed_documents E (h @ [EmbedQuery (Text s)]) gens = Inr vs" and
    lv: "length vs = length gens" and dv: "list_all (\<lambda>v. length v = d) vs"
    unfolding clients_ok_def by blast
  from lv assms(2) have ne: "vs \<noteq> []" by auto
  from dv lq have rect: "list_all (\<lambda>v. length v = length qv) vs" by simp
  from calculate_similarity_replies [OF q v] similarity_arrays_rect [OF ne rect] ne
  show ?thesis by simp
qed

lemma score_pairs_total:
  assumes "clients_ok E d" and "list_all (\<lambda>p. is_text (fst p) \<and> snd p \<noteq> []) ps"
  shows "\<exists>h' sc. score_pairs E ps acc h = (h', Inr sc) \<and> length sc = length acc + length ps"
  using assms(2)
proof (induction ps arbitrary: acc h)
  case Nil
  show ?case by simp
next
  case (Cons p ps)
  obtain q gens where p: "p = (q, gens)" by (cases p)
  with Cons.prems obtain s where q: "q = Text s" and g: "gens \<noteq> []"
    by (cases q) simp_all
  from calculate_similarity_total [OF assms(1) g, of s h] obtain h1 sims where
    c: "calculate_similarity E (Text s) gens h = (h1, Inr sims)" and ne: "sims \<noteq> []"
    by blast
  from np_max_nonempty [OF ne] obtain mx where m: "np_max sims = Inr mx" by blast
  from Cons.prems have "list_all (\<lambda>p. is_text (fst p) \<and> snd p \<noteq> []) ps" by simp
  from Cons.IH [OF this, of "acc @ [mx]" h1] obtain h' sc where
    "score_pairs E ps (acc @ [mx]) h1 = (h', Inr sc)" and
    "length sc = length (acc @ [mx]) + length ps" by blast
  with p q c m show ?case by simp
qed

lemma score_batch_total:
  assumes "clients_ok E d"
    and "getitem sub ''question'' = Inr qs"
    and "getitem sub ''answer'' = Inr ans"
    and "length qs = length ans"
    and "list_all is_text qs"
  shows "\<exists>h' sc. score_batch E m sub h = (h', Inr sc) \<and> length sc = length qs"
proof -
  let ?prompts = "map (\<lambda>a. [QUESTION_GEN_format E a]) ans"
  let ?h1 = "h @ [Generate ?prompts (strictness m)]"
  from assms(1) obtain res where
    g: "llm_generate E h ?prompts (strictness m) = Inr res" and
    lr: "length res = length ?prompts" and nr: "list_all (\<lambda>r. r \<noteq> []) res"
    unfolding clients_ok_def by blast
  have run: "score_batch E m sub h = score_pairs E (zip qs res) [] ?h1"
    using assms(2,3) g by (simp add: score_batch_def Let_def)
  have "list_all (\<lambda>p. is_text (fst p) \<and> snd p \<noteq> []) (zip qs res)"
    using assms(5) nr by (auto simp: list_all_iff dest: set_zip_leftD set_zip_rightD)
  from score_pairs_total [OF assms(1) this, of "[]" ?h1] obtain h' sc where
    "score_pairs E (zip qs res) [] ?h1 = (h', Inr sc)" and "length sc = length (zip qs res)"
    by auto
  with run lr assms(4) show ?thesis by simp
qed

lemma score_batches_total:
  assumes "clients_ok E d"
    and "getitem ds ''question'' = Inr qs"
    and "getitem ds ''answer'' = Inr ans"
    and "length qs = num_rows ds"
    and "length ans = num_rows ds"
    and "list_all is_text qs"
    and "list_all (\<lambda>r. fst r < snd r \<and> snd r \<le> num_rows ds) bs"
  shows "\<exists>h' sc. score_batches E m ds bs acc h = (h', Inr sc) \<and>
           length sc = length acc + sum_list (map batch_len bs)"
  using assms(7)
proof (induction bs arbitrary: acc h)
  case Nil
  show ?case by simp
next
  case (Cons r bs)
  obtain a b where r: "r = (a, b)" by (cases r)
  with Cons.prems have ab: "a < b" and bn: "b \<le> num_rows ds" by simp_all
  from getitem_select [OF assms(2) ab bn] obtain sub where
    sel: "select ds (a, b) = Inr sub" and
    sq: "getitem sub ''question'' = Inr (take (b - a) (drop a qs))" by blast
  from getitem_select [OF assms(3) ab bn] sel have
    sa: "getitem sub ''answer'' = Inr (take (b - a) (drop a ans))" by simp
  have len: "length (take (b - a) (drop a qs)) = length (take (b - a) (drop a ans))"
    using assms(4,5) by simp
  have qtext: "list_all is_text (take (b - a) (drop a qs))"
    using assms(6) by (auto simp: list_all_iff dest: in_set_takeD in_set_dropD)
  from score_batch_total [OF assms(1) sq sa len qtext, of m h] obtain h1 sc1 where
    sb: "score_batch E m sub h = (h1, Inr sc1)" and
    l1: "length sc1 = length (take (b - a) (drop a qs))" by blast
  from l1 assms(4) ab bn have l1': "length sc1 = b - a" by simp
  from Cons.prems have "list_all (\<lambda>r. fst r < snd r \<and> snd r \<le> num_rows ds) bs" by simp
  from Cons.IH [OF this, of "acc @ sc1" h1] obtain h' sc where
    "score_batches E m ds bs (acc @ sc1) h1 = (h', Inr sc)" and
    "length sc = length (acc @ sc1) + sum_list (map batch_len bs)" by blast
  moreover have "batch_len (a, b) = b - a" by (simp add: batch_len_def)
  ultimately show ?case using r sel sb l1' by simp
qed

lemma get_batches_sizes:
  assumes "0 < batch_size m"
  shows "sum_list (map batch_len (get_batches m n)) = n"
proof -
  have "length (concat (map batch_indices (get_batches m n))) =
      sum_list (map batch_len (get_batches m n))"
    by (simp add: length_concat o_def batch_indices_def batch_len_def [abs_def])
  with get_batches_cover [OF assms, of n] show ?thesis by simp
qed

lemma score_total:
  assumes "wf_dataset ds" and "clients_ok E d" and "0 < batch_size m"
    and "name m \<notin> set (map fst (columns ds))"
    and "getitem ds ''question'' = Inr qs" and "list_all is_text qs"
    and "getitem ds ''answer'' = Inr ans"
  shows "\<exists>h' out. score E m ds h = (h', Inr out)"
proof -
  have bs: "list_all (\<lambda>r. fst r < snd r \<and> snd r \<le> num_rows ds) (get_batches m (num_rows ds))"
    using get_batches_member [OF assms(3)] by (simp add: list_all_iff)
  from score_batches_total [OF assms(2,5,7) getitem_length [OF assms(1,5)]
      getitem_length [OF assms(1,7)] assms(6) bs, of m "[]" h]
  obtain h' sc where
    run: "score_batches E m ds (get_batches m (num_rows ds)) [] h = (h', Inr sc)" and
    "length sc = sum_list (map batch_len (get_batches m (num_rows ds)))" by auto
  with get_batches_sizes [OF assms(3)] have "length sc = num_rows ds" by simp
  with assms(4) have "add_column ds (name m) (map Float sc) =
      Inr (ds\<lparr>columns := columns ds @ [(name m, map Float sc)]\<rparr>)"
    by (simp add: add_column_def)
  with run show ?thesis by (simp add: score_def)
qed

lemma score_Inr:
  assumes "score E m ds h = (h', Inr out)"
  shows "\<exists>scores. length scores = num_rows ds \<and> name m \<notin> set (map fst (columns ds)) \<and>
           out = ds\<lparr>columns := columns ds @ [(name m, map Float scores)]\<rparr>"
proof -
  obtain h1 r where run: "score_batches E m ds (get_batches m (num_rows ds)) [] h = (h1, r)"
    by (cases "score_batches E m ds (get_batches m (num_rows ds)) [] h")
  with assms obtain scores where "r = Inr scores"
    by (cases r) (simp_all add: score_def)
  with assms run have "add_column ds (name m) (map Float scores) = Inr out"
    by (simp add: score_def)
  from add_column_Inr [OF this] show ?thesis by auto
qed

lemma stub_embed_length: "length (stub_embed s) = 2"
  by (simp add: stub_embed_def)

lemma stub_clients_ok: "gens \<noteq> [] \<Longrightarrow> clients_ok (stub_env gens) 2"
  by (simp add: clients_ok_def stub_env_def stub_embed_length list_all_iff)

lemma two_rows_wf: "wf_dataset two_rows"
  by (simp add: wf_dataset_def two_rows_def)

lemma two_rows_question:
  "getitem two_rows ''question'' = Inr [Text ''east'', Text ''north'']"
  by (simp add: getitem_def two_rows_def)

lemma two_rows_answer:
  "getitem two_rows ''answer'' = Inr [Text ''sunrise'', Text ''pole'']"
  by (simp add: getitem_def two_rows_def)

lemma two_rows_fresh: "name answer_relevancy \<notin> set (map fst (columns two_rows))"
  by (simp add: answer_relevancy_def two_rows_def)

subsection \<open>The table returned by \<open>score\<close>\<close>

text \<open>
  C1. Whenever \<open>score\<close> returns a table, the table has the rows of the input, in their
  order (its number of rows and its columns are those of the input), followed by exactly
  one new column, named by the field \<open>name\<close> of the metric, that holds one score per
  input row. And \<open>score\<close> does return a table when the input is a well-formed table with
  a text column "question", a column "answer" and no column of the metric's name, the batch
  size is positive, and the two clients keep their contracts.
\<close>

theorem score_appends_score_column:
  "(\<forall>h' out. score E m ds h = (h', Inr out) \<longrightarrow>
      num_rows out = num_rows ds \<and>
      (\<exists>scores. length scores = num_rows ds \<and>
                columns out = columns ds @ [(name m, map Float scores)])) \<and>
   (wf_dataset ds \<and> clients_ok E d \<and> 0 < batch_size m \<and>
    name m \<notin> set (map fst (columns ds)) \<and>
    (\<exists>qs ans. getitem ds ''question'' = Inr qs \<and> list_all is_text qs \<and>
              getitem ds ''answer'' = Inr ans) \<longrightarrow>
    (\<exists>h' out. score E m ds h = (h', Inr out)))"
proof (intro conjI allI impI)
  fix h' out
  assume "score E m ds h = (h', Inr out)"
  from score_Inr [OF this] obtain scores where
    l: "length scores = num_rows ds" and
    o: "out = ds\<lparr>columns := columns ds @ [(name m, map Float scores)]\<rparr>" by blast
  from o show "num_rows out = num_rows ds" by simp
  from l o show "\<exists>scores. length scores = num_rows ds \<and>
      columns out = columns ds @ [(name m, map Float scores)]" by auto
next
  assume "wf_dataset ds \<and> clients_ok E d \<and> 0 < batch_size m \<and>
    name m \<notin> set (map fst (columns ds)) \<and>
    (\<exists>qs ans. getitem ds ''question'' = Inr qs \<and> list_all is_text qs \<and>
              getitem ds ''answer'' = Inr ans)"
  then show "\<exists>h' out. score E m ds h = (h', Inr out)"
    using score_total [of ds E d m _ _ h] by blast
qed

theorem score_appends_score_column_witness:
  "\<exists>h' out scores.
     score (stub_env [''north'', ''east'', ''west'']) answer_relevancy two_rows [] = (h', Inr out) \<and>
     num_rows out = 2 \<and> length scores = 2 \<and>
     columns out = columns two_rows @ [(''answer_relevancy'', map Float scores)]"
proof -
  let ?E = "stub_env [''north'', ''east'', ''west'']"
  note t = score_appends_score_column [of ?E answer_relevancy two_rows "[]" 2]
  have pre: "wf_dataset two_rows \<and> clients_ok ?E 2 \<and> 0 < batch_size answer_relevancy \<and>
    name answer_relevancy \<notin> set (map fst (columns two_rows)) \<and>
    (\<exists>qs ans. getitem two_rows ''question'' = Inr qs \<and> list_all is_text qs \<and>
              getitem two_rows ''answer'' = Inr ans)"
    using two_rows_wf stub_clients_ok [of "[''north'', ''east'', ''west'']"] two_rows_fresh
      two_rows_question two_rows_answer
    by (simp add: answer_relevancy_def)
  from t [THEN conjunct2, rule_format, OF pre] obtain h' out where
    run: "score ?E answer_relevancy two_rows [] = (h', Inr out)" by blast
  from t [THEN conjunct1, rule_format, OF run] obtain scores where
    "num_rows out = num_rows two_rows" "length scores = num_rows two_rows"
    "columns out = columns two_rows @ [(name answer_relevancy, map Float scores)]" by blast
  then have "num_rows out = 2 \<and> length scores = 2 \<and>
     columns out = columns two_rows @ [(''answer_relevancy'', map Float scores)]"
    by (simp add: two_rows_def answer_relevancy_def)
  with run show ?thesis by blast
qed

text \<open>
  C8. Whenever \<open>score\<close> returns a table, the columns of the input come first in it, in
  their order, each with its name and its cells unchanged; the table has one more column,
  and reading any column of another name than the score column gives what the input gives.
\<close>

theorem score_passes_columns_through:
  assumes "score E m ds h = (h', Inr out)"
  shows "take (length (columns ds)) (columns out) = columns ds \<and>
         length (columns out) = length (columns ds) + 1 \<and>
         fst (last (columns out)) = name m \<and>
         (\<forall>key. key \<noteq> name m \<longrightarrow> getitem out key = getitem ds key)"
proof -
  from score_Inr [OF assms] obtain scores where
    o: "out = ds\<lparr>columns := columns ds @ [(name m, map Float scores)]\<rparr>" by blast
  then show ?thesis by (auto simp: getitem_def map_add_def split: option.splits)
qed

theorem score_passes_columns_through_witness:
  "\<exists>h' out.
     score (stub_env [''north'', ''east'', ''west'']) answer_relevancy two_rows [] = (h', Inr out) \<and>
     take 3 (columns out) =
       [(''id'', [Text ''r0'', Text ''r1'']),
        (''question'', [Text ''east'', Text ''north'']),
        (''answer'', [Text ''sunrise'', Text ''pole''])] \<and>
     length (columns out) = 4 \<and>
     getitem out ''id'' = Inr [Text ''r0'', Text ''r1'']"
proof -
  let ?E = "stub_env [''north'', ''east'', ''west'']"
  from score_total [OF two_rows_wf stub_clients_ok _ two_rows_fresh two_rows_question _
      two_rows_answer, of "[''north'', ''east'', ''west'']" "[]"]
  obtain h' out where run: "score ?E answer_relevancy two_rows [] = (h', Inr out)"
    by (auto simp: answer_relevancy_def)
  note t = score_passes_columns_through [OF run]
  from t have "take (length (columns two_rows)) (columns out) = columns two_rows" by blast
  then have a: "take 3 (columns out) =
       [(''id'', [Text ''r0'', Text ''r1'']),
        (''question'', [Text ''east'', Text ''north'']),
        (''answer'', [Text ''sunrise'', Text ''pole''])]"
    by (simp add: two_rows_def numeral_3_eq_3)
  from t have "length (columns out) = length (columns two_rows) + 1" by blast
  then have b: "length (columns out) = 4" by (simp add: two_rows_def)
  from t have "\<forall>key. key \<noteq> name answer_relevancy \<longrightarrow> getitem out key = getitem two_rows key"
    by blast
  then have "getitem out ''id'' = getitem two_rows ''id''"
    by (simp add: answer_relevancy_def)
  then have c: "getitem out ''id'' = Inr [Text ''r0'', Text ''r1'']"
    by (simp add: getitem_def two_rows_def)
  from run a b c show ?thesis by blast
qed

subsection \<open>The range of the scores\<close>

lemma one_row_batches: "get_batches answer_relevancy (num_rows one_row) = [(0, 1)]"
  by (simp add: get_batches_def answer_relevancy_def one_row_def)

lemma one_row_select: "select one_row (0, Suc 0) = Inr one_row"
  by (simp add: select_def one_row_def)

lemma stub_west_batch:
  "score_batch (stub_env [''west'']) answer_relevancy one_row [] =
     ([Generate [[QUESTION_GEN_format (stub_env [''west'']) (Text ''sunrise'')]] 3,
       EmbedQuery (Text ''east''), EmbedDocuments [''west'']],
      Inr [Fin (- 1)])"
proof -
  have sims: "similarity_arrays [1, 0] [[- 1, 0]] = Inr [Fin (- 1)]"
    by (simp add: similarity_arrays_rect cosine_similarity_def dot_product_def l2_norm_def
        np_div_def)
  have gen: "llm_generate (stub_env [''west'']) h ps n = Inr (map (\<lambda>p. [''west'']) ps)" for h ps n
    by (simp add: stub_env_def)
  show ?thesis
    by (simp add: score_batch_def getitem_def one_row_def answer_relevancy_def gen
        stub_similarity stub_embed_def sims)
qed

text \<open>
  C4 fails on the code. The class documents scores from 0 to 1, but the score is the raw
  cosine similarity: when the question is embedded as [1, 0] and its only generated
  question as [-1, 0], the score written into the table is -1.
\<close>

theorem score_negative:
  "score (stub_env [''west'']) answer_relevancy one_row [] =
     ([Generate [[QUESTION_GEN_format (stub_env [''west'']) (Text ''sunrise'')]] 3,
       EmbedQuery (Text ''east''), EmbedDocuments [''west'']],
      Inr \<lparr>num_rows = 1,
           columns = [(''question'', [Text ''east'']), (''answer'', [Text ''sunrise'']),
                      (''answer_relevancy'', [Float (Fin (- 1))])]\<rparr>)"
proof -
  have "score_batches (stub_env [''west'']) answer_relevancy one_row
          (get_batches answer_relevancy (num_rows one_row)) [] [] =
     ([Generate [[QUESTION_GEN_format (stub_env [''west'']) (Text ''sunrise'')]] 3,
       EmbedQuery (Text ''east''), EmbedDocuments [''west'']],
      Inr [Fin (- 1)])"
    by (simp add: one_row_batches one_row_select stub_west_batch)
  then show ?thesis
    by (simp add: score_def add_column_def one_row_def answer_relevancy_def)
qed

end
